theory Spec2Isabelle
  imports Main "HOL-Library.AList"
begin

section \<open>Requirements\<close>

text \<open>
  The requirement objects that travel through the repository interface
  (\<^verbatim>\<open>InstallRequirement\<close> in the source).  A version predicate is an operator
  together with a version string; the specifier set is the conjunction of its predicates.
\<close>

datatype operator =
  Compatible | Equal | NotEqual | LessEqual | GreaterEqual | Less | Greater | ArbitraryEqual

type_synonym predicate = "operator \<times> string"

record requirement =
  name :: string
  specifier :: "predicate set"
  extras :: "string set"
  editable :: bool
  locator :: "string option"
  provenance :: "string set"

section \<open>The repository base class (prequ/repositories/base.py)\<close>

text \<open>
  \<^verbatim>\<open>BaseRepository\<close> is an abstract class.  Its subclasses supply
  \<^verbatim>\<open>_get_dependencies\<close>; the helper \<^verbatim>\<open>is_pinned_requirement\<close> is imported from
  \<^verbatim>\<open>prequ.utils\<close>.  Both are parameters of the model: \<open>is_pinned_requirement\<close> is a
  predicate on requirements and \<open>backend\<close> stands for the subclass method
  \<^verbatim>\<open>_get_dependencies\<close>.  The repository object \<^verbatim>\<open>self\<close> is threaded through as a
  state of arbitrary type \<open>'s\<close>, so that a backend may keep caches or count its calls.
  A backend call either raises (\<open>Inl\<close>) or returns (\<open>Inr\<close>) and leaves a new state.

  An exception is either the \<^verbatim>\<open>TypeError\<close> raised at line 35 of base.py, which
  carries the offending requirement in its message, or whatever the backend raised.
  The guard of line 34 reads \<^verbatim>\<open>ireq.editable\<close> first and asks the helper only for
  a requirement that is not editable; the helper is taken to answer without raising, so
  the order of the two tests does not show in the result.
\<close>

datatype 'e exn = TypeError requirement | Raised 'e

type_synonym ('s, 'e, 'a) backend_call = "'s \<Rightarrow> requirement \<Rightarrow> ('e + 'a) \<times> 's"

text \<open>
  \<^verbatim>\<open>
  def get_dependencies(self, ireq):
      if not (ireq.editable or is_pinned_requirement(ireq)):
          raise TypeError('Expected pinned or editable InstallRequirement, got {}'.format(ireq))
      return self._get_dependencies(ireq)
  \<close>
\<close>

definition get_dependencies ::
  "(requirement \<Rightarrow> bool) \<Rightarrow> ('s, 'e, 'd) backend_call \<Rightarrow> 's \<Rightarrow> requirement \<Rightarrow> ('e exn + 'd) \<times> 's" where
  "get_dependencies is_pinned_requirement backend self ireq =
     (if \<not> (editable ireq \<or> is_pinned_requirement ireq) then (Inl (TypeError ireq), self)
      else (case backend self ireq of
              (Inl e, self') \<Rightarrow> (Inl (Raised e), self')
            | (Inr deps, self') \<Rightarrow> (Inr deps, self')))"

text \<open>
  \<^verbatim>\<open>
  def prepare_ireq(self, ireq):
      self._get_dependencies(ireq)
  \<close>
  The result of the backend is dropped; the method returns \<^verbatim>\<open>None\<close>.
\<close>

definition prepare_ireq :: "('s, 'e, 'd) backend_call \<Rightarrow> 's \<Rightarrow> requirement \<Rightarrow> ('e exn + unit) \<times> 's" where
  "prepare_ireq backend self ireq =
     (case backend self ireq of
        (Inl e, self') \<Rightarrow> (Inl (Raised e), self')
      | (Inr deps, self') \<Rightarrow> (Inr (), self'))"

text \<open>
  To observe whether a method reaches the backend, any backend can be wrapped so that it
  appends the requirement it was called with to a log kept beside its state.
\<close>

definition logged :: "('s, 'e, 'a) backend_call \<Rightarrow> ('s \<times> requirement list, 'e, 'a) backend_call" where
  "logged backend = (\<lambda>(self, log) ireq.
     (case backend self ireq of (res, self') \<Rightarrow> (res, (self', log @ [ireq]))))"

section \<open>The constraint merger\<close>

text \<open>
  The module that combines requirements (the resolver) is not among the sources; the
  definitions of this section and of the next follow the specification, sections 3, 4.1,
  4.2, 4.3 and 7.
\<close>

text \<open>
  Modelled from the spec: the canonical name of section 4.1 (\<^verbatim>\<open>key(req)\<close>, whose code
  is missing): "lowercases, normalizes separators (\<^verbatim>\<open>_\<close>, \<^verbatim>\<open>.\<close>, \<^verbatim>\<open>-\<close> treated as
  equivalent)".  Lower-casing is a table on the 26 ASCII capitals.
\<close>

definition lower :: "char \<Rightarrow> char" where
  "lower c =
     (case map_of (zip ''ABCDEFGHIJKLMNOPQRSTUVWXYZ'' ''abcdefghijklmnopqrstuvwxyz'') c of
        None \<Rightarrow> c
      | Some d \<Rightarrow> d)"

text \<open>
  Modelled from the spec: one character of the canonical name (part of the missing
  \<^verbatim>\<open>key\<close>): the three separators become \<^verbatim>\<open>-\<close>, letters are lower-cased.
\<close>

definition canonical_char :: "char \<Rightarrow> char" where
  "canonical_char c = (if c = CHR ''_'' \<or> c = CHR ''.'' then CHR ''-'' else lower c)"

text \<open>
  Modelled from the spec: the canonical form of a package name (part of the missing
  \<^verbatim>\<open>key\<close>), character by character.
\<close>

definition canonical :: "string \<Rightarrow> string" where
  "canonical s = map canonical_char s"

text \<open>
  Modelled from the spec: \<^verbatim>\<open>key(req) -> canonical_name\<close> of section 4.1, "the merge
  key"; its code is missing.
\<close>

definition key :: "requirement \<Rightarrow> string" where
  "key req = canonical (name req)"

text \<open>
  Modelled from the spec: the error taxonomy of section 7 (no error type is among the
  sources).  A \<open>Conflict\<close> carries the implicated canonical name and
  \<open>HashUnavailable\<close> the name whose hashes could not be fetched; the provenance
  chains that the specification also attaches to a conflict are not represented.
\<close>

datatype error =
  InvalidSpecifier
| Conflict string
| PreconditionViolated
| RoundLimitExceeded
| HashUnavailable string

text \<open>
  Modelled from the spec: "editable/source-locator requirement" of section 3 and the
  glossary (no code for it is among the sources): the editable flag is set or a source
  locator is present.
\<close>

definition has_source :: "requirement \<Rightarrow> bool" where
  "has_source req = (editable req \<or> locator req \<noteq> None)"

text \<open>
  Modelled from the spec: \<^verbatim>\<open>merge(a, b) -> Requirement | Error(Conflict)\<close> of section
  4.2, whose code is missing.
  \<^item> "Editable/source-locator requirements are not mergeable with a differing
    editable/source-locator requirement for the same name": when both sides have a
    source and the two sources (editable flag and locator) differ, the merge fails with a
    conflict on the name.
  \<^item> "A locator requirement merged with a plain-specifier requirement for the same name
    yields the locator requirement (source wins over specifier)": the result carries the
    source of the side that has one.
  \<^item> "the merger does not resolve versions, only accumulates predicates": the predicate
    sets are joined, which intersects the sets of versions they allow.  This is done in
    every case, also next to a source: the specification leaves it to the repository to
    check the specifier against "metadata later extracted from the source", so the merger
    has to hand the predicates on.
  \<^item> "Extras are unioned.  Provenance sets are unioned."
  The result is stored under the canonical name.
\<close>

definition merge :: "requirement \<Rightarrow> requirement \<Rightarrow> error + requirement" where
  "merge a b =
     (if has_source a \<and> has_source b \<and> (editable a, locator a) \<noteq> (editable b, locator b)
      then Inl (Conflict (key a))
      else Inr \<lparr>name = key a,
                specifier = specifier a \<union> specifier b,
                extras = extras a \<union> extras b,
                editable = (if has_source a then editable a else editable b),
                locator = (if has_source a then locator a else locator b),
                provenance = provenance a \<union> provenance b\<rparr>)"

text \<open>
  Modelled from the spec: nested merges such as \<^verbatim>\<open>merge(merge(a,b),c)\<close> of section 8,
  for the missing merger: a merge whose argument is itself the outcome of a merge fails
  when that merge has failed.
\<close>

definition merge_result :: "error + requirement \<Rightarrow> error + requirement \<Rightarrow> error + requirement" where
  "merge_result x y =
     (case x of
        Inl e \<Rightarrow> Inl e
      | Inr a \<Rightarrow> (case y of Inl e \<Rightarrow> Inl e | Inr b \<Rightarrow> merge a b))"

text \<open>
  Modelled from the spec: the "allowed-version predicate" of a specifier set (sections 3
  and 4.2; version matching belongs to the repository and has no code here): a version is
  admitted when it satisfies every predicate of the set.  What it means for a version to
  satisfy one predicate is a parameter.
\<close>

definition admits :: "(string \<Rightarrow> predicate \<Rightarrow> bool) \<Rightarrow> predicate set \<Rightarrow> string \<Rightarrow> bool" where
  "admits satisfies preds v = (\<forall>p\<in>preds. satisfies v p)"

section \<open>The resolution loop\<close>

text \<open>
  Modelled from the spec: the WorkingSet of section 3 (the resolver that owns it is
  missing), a "mapping from canonical package name to its current merged Requirement",
  kept as an association list in insertion order with at most one entry per name.
\<close>

type_synonym working_set = "(string \<times> requirement) list"

text \<open>
  Modelled from the spec: the part of the collaborator contract of section 6 that the loop
  uses (the resolver that calls it is missing).  \<open>find_best_match\<close> gives the matched
  version, or \<open>None\<close> for \<^verbatim>\<open>Error(NoMatchingVersion)\<close>; \<open>dependencies\<close> stands for
  \<^verbatim>\<open>get_dependencies\<close> and lists the direct dependencies of a pinned or editable
  requirement.  Both answer the same question the same way each time they are asked.
\<close>

record repository =
  find_best_match :: "requirement \<Rightarrow> string option"
  dependencies :: "requirement \<Rightarrow> requirement list"

text \<open>
  Modelled from the spec: storing one raw requirement in the WorkingSet (section 3:
  "multiple raw requirements for the same name must be merged before being stored"; the
  resolver is missing).  A new name gets a new entry; a known name has its entry replaced
  by the merge of the entry and the requirement, and a failed merge is the failure.
\<close>

definition add_requirement :: "working_set \<Rightarrow> requirement \<Rightarrow> error + working_set" where
  "add_requirement ws req =
     (case map_of ws (key req) of
        None \<Rightarrow> Inr (ws @ [(key req, req)])
      | Some old \<Rightarrow>
          (case merge old req of
             Inl e \<Rightarrow> Inl e
           | Inr m \<Rightarrow> Inr (AList.update (key req) m ws)))"

text \<open>
  Modelled from the spec: merging a list of raw requirements into the WorkingSet, one
  after the other, stopping at the first failed merge (used for SEEDED, "initialized by
  merging all root Requirements by name", and for step 3 of a round; the resolver is
  missing).
\<close>

fun add_all :: "working_set \<Rightarrow> requirement list \<Rightarrow> error + working_set" where
  "add_all ws [] = Inr ws"
| "add_all ws (req # reqs) =
     (case add_requirement ws req of
        Inl e \<Rightarrow> Inl e
      | Inr ws' \<Rightarrow> add_all ws' reqs)"

text \<open>
  Modelled from the spec: step 2 of a round (section 4.3; the resolver is missing):
  "Update that Requirement in place to be pinned to the matched version (for plain
  requirements)".  A requirement with a source is left as it is.
\<close>

definition pin :: "requirement \<Rightarrow> string \<Rightarrow> requirement" where
  "pin req v = (if has_source req then req else req\<lparr>specifier := {(Equal, v)}\<rparr>)"

text \<open>
  Modelled from the spec: the entries a round works on (section 4.3, step 1; the resolver
  is missing): "every Requirement in WorkingSet not yet marked expanded".  The marks are
  the set \<open>ex\<close> of names.
\<close>

definition pending :: "working_set \<Rightarrow> string set \<Rightarrow> working_set" where
  "pending ws ex = filter (\<lambda>(k, req). k \<notin> ex) ws"

text \<open>
  Modelled from the spec: steps 1 and 2 of a round over the pending entries (section 4.3;
  the resolver is missing): ask the repository for the best match of each entry; "if the
  Repository reports no version satisfies the specifier set, transition to CONFLICT with
  the offending name"; otherwise the entry is pinned.
\<close>

fun match_all :: "repository \<Rightarrow> working_set \<Rightarrow> error + working_set" where
  "match_all repo [] = Inr []"
| "match_all repo ((k, req) # rest) =
     (case find_best_match repo req of
        None \<Rightarrow> Inl (Conflict k)
      | Some v \<Rightarrow>
          (case match_all repo rest of
             Inl e \<Rightarrow> Inl e
           | Inr ps \<Rightarrow> Inr ((k, pin req v) # ps)))"

text \<open>
  Modelled from the spec: writing the pinned entries back "in place" (section 4.3, step 2;
  the resolver is missing).
\<close>

definition store_all :: "working_set \<Rightarrow> working_set \<Rightarrow> working_set" where
  "store_all ws ps = fold (\<lambda>(k, req). AList.update k req) ps ws"

text \<open>
  Modelled from the spec: step 3 of a round (section 4.3; the resolver is missing): "For
  each newly-pinned-or-editable Requirement, ask the Repository for its direct
  dependencies; each returned raw Requirement is merged into WorkingSet.  If the merge
  fails, transition to CONFLICT."
\<close>

fun merge_dependencies :: "repository \<Rightarrow> working_set \<Rightarrow> working_set \<Rightarrow> error + working_set" where
  "merge_dependencies repo ws [] = Inr ws"
| "merge_dependencies repo ws ((k, p) # rest) =
     (case add_all ws (dependencies repo p) of
        Inl e \<Rightarrow> Inl e
      | Inr ws' \<Rightarrow> merge_dependencies repo ws' rest)"

text \<open>
  Modelled from the spec: one round of EXPANDING (section 4.3, steps 1 to 3; the resolver
  is missing).  All entries that are pending at the start of the round are matched and
  pinned as one batch, then the dependencies of the entries pinned in this round are
  merged, and every entry of the batch is marked expanded.
\<close>

definition expand_round ::
  "repository \<Rightarrow> working_set \<Rightarrow> string set \<Rightarrow> error + working_set \<times> string set" where
  "expand_round repo ws ex =
     (let todo = pending ws ex in
      case match_all repo todo of
        Inl e \<Rightarrow> Inl e
      | Inr pinned \<Rightarrow>
          (case merge_dependencies repo (store_all ws pinned) pinned of
             Inl e \<Rightarrow> Inl e
           | Inr ws' \<Rightarrow> Inr (ws', ex \<union> set (map fst todo))))"

text \<open>
  Modelled from the spec: the stability check (section 4.3, step 4; the resolver is
  missing): the round "produced no WorkingSet change (no new names added, no existing
  entry's specifier set narrowed)".  Entries are never removed and keep their place, so
  the names and specifier sets are compared position by position.
\<close>

definition unchanged :: "working_set \<Rightarrow> working_set \<Rightarrow> bool" where
  "unchanged ws ws' =
     (map (\<lambda>(k, req). (k, specifier req)) ws' = map (\<lambda>(k, req). (k, specifier req)) ws)"

text \<open>
  Modelled from the spec: the states of the loop (section 4.3; the resolver is missing):
  \<^verbatim>\<open>SEEDED -> EXPANDING -> {STABLE | CONFLICT | ROUND_LIMIT_EXCEEDED}\<close>.  \<open>SEEDED\<close>
  holds the root requirements, \<open>EXPANDING\<close> the number of rounds completed, the
  WorkingSet and the expanded marks, \<open>STABLE\<close> the terminal WorkingSet.  The two
  failures are \<open>FAILED (Conflict n)\<close> and \<open>FAILED RoundLimitExceeded\<close>, with the
  errors of section 7.
\<close>

datatype state =
  SEEDED "requirement list"
| EXPANDING nat working_set "string set"
| STABLE working_set
| FAILED error

text \<open>
  Modelled from the spec: the terminal states of the loop (section 4.3; the resolver is
  missing).
\<close>

fun terminal :: "state \<Rightarrow> bool" where
  "terminal (STABLE ws) = True"
| "terminal (FAILED e) = True"
| "terminal s = False"

text \<open>
  Modelled from the spec: one transition of the loop under the round cap \<open>cap\<close>
  (section 4.3; the resolver is missing).
  \<^item> SEEDED: the roots are merged by name; "any merge failure at this stage is a terminal
    CONFLICT".
  \<^item> EXPANDING: "a hard round cap bounds pathological cycles; exceeding it is
    ROUND_LIMIT_EXCEEDED": when \<open>cap\<close> rounds are already completed, one more would
    exceed the cap.  Otherwise a round runs; its failure is the terminal failure; a round
    without change ends in STABLE; any other round is followed by the next.
  \<^item> A terminal state stays as it is.
\<close>

fun step :: "repository \<Rightarrow> nat \<Rightarrow> state \<Rightarrow> state" where
  "step repo cap (SEEDED roots) =
     (case add_all [] roots of
        Inl e \<Rightarrow> FAILED e
      | Inr ws \<Rightarrow> EXPANDING 0 ws {})"
| "step repo cap (EXPANDING n ws ex) =
     (if cap \<le> n then FAILED RoundLimitExceeded
      else case expand_round repo ws ex of
             Inl e \<Rightarrow> FAILED e
           | Inr (ws', ex') \<Rightarrow>
               if unchanged ws ws' then STABLE ws' else EXPANDING (Suc n) ws' ex')"
| "step repo cap s = s"

text \<open>
  The number of transitions a state can still make under the cap; it decreases with every
  transition from a state that is not terminal, which is why the loop below is a total
  function.
\<close>

fun budget :: "nat \<Rightarrow> state \<Rightarrow> nat" where
  "budget cap (SEEDED roots) = cap + 2"
| "budget cap (EXPANDING n ws ex) = Suc (cap - n)"
| "budget cap s = 0"

text \<open>
  Modelled from the spec: the loop itself (section 4.3; the resolver is missing): transitions
  are made until a terminal state is reached.
\<close>

function run :: "repository \<Rightarrow> nat \<Rightarrow> state \<Rightarrow> state" where
  "run repo cap s = (if terminal s then s else run repo cap (step repo cap s))"
  by pat_completeness auto
termination
proof (relation "measure (\<lambda>(repo, cap, s). budget cap s)")
  show "wf (measure (\<lambda>(repo, cap, s). budget cap s))"
    by simp
next
  fix repo :: repository and cap s
  assume "\<not> terminal s"
  then show "((repo, cap, step repo cap s), (repo, cap, s))
      \<in> measure (\<lambda>(repo, cap, s). budget cap s)"
    by (cases s) (auto split: sum.splits prod.splits)
qed

declare run.simps [simp del]

text \<open>
  Modelled from the spec: the resolution of a list of root requirements against a
  repository (the loop part of \<^verbatim>\<open>compile(root_requirements, repository)\<close> of section 6,
  whose code is missing), from SEEDED to a terminal state.
\<close>

definition resolve :: "repository \<Rightarrow> nat \<Rightarrow> requirement list \<Rightarrow> state" where
  "resolve repo cap roots = run repo cap (SEEDED roots)"

text \<open>
  The states the loop can be in: a failure is a conflict or the round limit, and the
  number of completed rounds never exceeds the cap.
\<close>

fun sound :: "nat \<Rightarrow> state \<Rightarrow> bool" where
  "sound cap (FAILED e) = ((\<exists>n. e = Conflict n) \<or> e = RoundLimitExceeded)"
| "sound cap (EXPANDING n ws ex) = (n \<le> cap)"
| "sound cap s = True"

section \<open>Concrete inputs\<close>

text \<open>Concrete requirements and a concrete backend used to run the methods.\<close>

definition foo_any :: requirement where
  "foo_any = \<lparr>name = ''foo'', specifier = {}, extras = {}, editable = False,
     locator = None, provenance = {}\<rparr>"

definition foo_pinned :: requirement where
  "foo_pinned = foo_any\<lparr>specifier := {(Equal, ''1.2'')}\<rparr>"

definition bar_editable :: requirement where
  "bar_editable = \<lparr>name = ''bar'', specifier = {}, extras = {}, editable = True,
     locator = Some ''git+git://fake.org/x/bar.git'', provenance = {}\<rparr>"

definition six_dep :: requirement where
  "six_dep = \<lparr>name = ''six'', specifier = {(GreaterEqual, ''1.0'')}, extras = {},
     editable = False, locator = None, provenance = {}\<rparr>"

text \<open>
  A stand-in for the imported helper, used only to run the methods on the requirements
  above: it accepts a specifier set that consists of one \<^verbatim>\<open>==\<close> predicate.
\<close>

definition sample_is_pinned :: "requirement \<Rightarrow> bool" where
  "sample_is_pinned ireq = (card (specifier ireq) = 1 \<and> fst ` specifier ireq = {Equal})"

definition fake_backend :: "(unit, string, requirement set) backend_call" where
  "fake_backend = (\<lambda>self ireq.
     if name ireq = ''broken'' then (Inl ''no such package'', self) else (Inr {six_dep}, self))"


text \<open>Three requirements for one package, written with three spellings of its name.\<close>

definition foo_bar_min :: requirement where
  "foo_bar_min = \<lparr>name = ''Foo_Bar'', specifier = {(GreaterEqual, ''1.0'')},
     extras = {''extra1''}, editable = False, locator = None, provenance = {''root''}\<rparr>"

definition foo_bar_max :: requirement where
  "foo_bar_max = \<lparr>name = ''foo-bar'', specifier = {(Less, ''2.0'')},
     extras = {''extra2''}, editable = False, locator = None, provenance = {''web''}\<rparr>"

definition foo_bar_src :: requirement where
  "foo_bar_src = \<lparr>name = ''foo.bar'', specifier = {}, extras = {}, editable = True,
     locator = Some ''git+git://fake.org/x/foo-bar.git'', provenance = {''cli''}\<rparr>"

text \<open>
  Repositories to run the loop on.  In \<open>mutual_repo\<close> the packages \<^verbatim>\<open>a\<close> and
  \<^verbatim>\<open>b\<close> depend on each other; in \<open>chain_repo\<close> every package depends on a package
  with a longer name, so that the dependency graph never closes; \<open>index_repo\<close> knows the
  versions 2.0 and 1.0 of every package, none of which has a dependency, and picks the
  first that every \<^verbatim>\<open>==\<close> predicate of the requirement names.
\<close>

definition plain :: "string \<Rightarrow> requirement" where
  "plain n = \<lparr>name = n, specifier = {}, extras = {}, editable = False, locator = None,
     provenance = {}\<rparr>"

definition mutual_repo :: repository where
  "mutual_repo = \<lparr>find_best_match = (\<lambda>req. Some ''0.1''),
     dependencies = (\<lambda>req. if name req = ''a'' then [plain ''b'']
                            else if name req = ''b'' then [plain ''a''] else [])\<rparr>"

definition chain_repo :: repository where
  "chain_repo = \<lparr>find_best_match = (\<lambda>req. Some ''0.1''),
     dependencies = (\<lambda>req. [plain (name req @ ''x'')])\<rparr>"

definition names_version :: "string \<Rightarrow> predicate \<Rightarrow> bool" where
  "names_version v p = (fst p \<noteq> Equal \<or> snd p = v)"

definition index_repo :: repository where
  "index_repo = \<lparr>find_best_match =
       (\<lambda>req. find (\<lambda>v. \<forall>p\<in>specifier req. names_version v p) [''2.0'', ''1.0'']),
     dependencies = (\<lambda>req. [])\<rparr>"

definition exactly :: "string \<Rightarrow> string \<Rightarrow> requirement" where
  "exactly n v = (plain n)\<lparr>specifier := {(Equal, v)}\<rparr>"

section \<open>The precondition of get_dependencies\<close>

lemma get_dependencies_rejects:
  "\<not> (editable ireq \<or> P ireq) \<Longrightarrow> get_dependencies P backend self ireq = (Inl (TypeError ireq), self)"
  by (simp add: get_dependencies_def)

lemma get_dependencies_accepts:
  "editable ireq \<or> P ireq \<Longrightarrow>
   get_dependencies P backend self ireq =
     (case backend self ireq of (Inl e, self') \<Rightarrow> (Inl (Raised e), self')
                              | (Inr deps, self') \<Rightarrow> (Inr deps, self'))"
  by (auto simp: get_dependencies_def)

text \<open>
  C1.  \<^verbatim>\<open>get_dependencies\<close> raises its \<^verbatim>\<open>TypeError\<close> exactly when the requirement is
  neither editable nor pinned.  In that case the backend is not reached: whatever the
  backend is, the repository state is returned as it was, and with a logging backend the
  log of backend calls is unchanged.  When the requirement is editable or pinned, the
  outcome is the backend's own: the dependency set it returns is returned as it is (and an
  exception it raises is passed on).
\<close>

theorem get_dependencies_precondition:
  "((\<exists>r self'. get_dependencies P backend self ireq = (Inl (TypeError r), self'))
      \<longleftrightarrow> \<not> (editable ireq \<or> P ireq))
   \<and> (\<not> (editable ireq \<or> P ireq) \<longrightarrow>
        get_dependencies P backend self ireq = (Inl (TypeError ireq), self)
        \<and> get_dependencies P (logged backend) (self, log) ireq = (Inl (TypeError ireq), (self, log)))
   \<and> (editable ireq \<or> P ireq \<longrightarrow>
        (\<forall>deps self'. backend self ireq = (Inr deps, self') \<longrightarrow>
            get_dependencies P backend self ireq = (Inr deps, self')
            \<and> get_dependencies P (logged backend) (self, log) ireq = (Inr deps, (self', log @ [ireq])))
        \<and> (\<forall>e self'. backend self ireq = (Inl e, self') \<longrightarrow>
            get_dependencies P backend self ireq = (Inl (Raised e), self')))"
proof (cases "editable ireq \<or> P ireq")
  case True
  have "\<not> (\<exists>r self'. get_dependencies P backend self ireq = (Inl (TypeError r), self'))"
    using True by (auto simp: get_dependencies_accepts split: prod.splits sum.splits)
  moreover have "backend self ireq = (Inr deps, self') \<Longrightarrow>
      get_dependencies P (logged backend) (self, log) ireq = (Inr deps, (self', log @ [ireq]))"
    for deps self'
    using True by (simp add: get_dependencies_accepts logged_def)
  ultimately show ?thesis
    using True by (simp add: get_dependencies_accepts)
next
  case False
  then show ?thesis
    by (simp add: get_dependencies_rejects)
qed

theorem get_dependencies_precondition_witness:
  "get_dependencies sample_is_pinned (logged fake_backend) ((), []) foo_any
     = (Inl (TypeError foo_any), ((), []))
   \<and> get_dependencies sample_is_pinned (logged fake_backend) ((), []) foo_pinned
     = (Inr {six_dep}, ((), [foo_pinned]))
   \<and> get_dependencies sample_is_pinned (logged fake_backend) ((), []) bar_editable
     = (Inr {six_dep}, ((), [bar_editable]))"
proof -
  have unpinned: "\<not> (editable foo_any \<or> sample_is_pinned foo_any)"
    by (simp add: foo_any_def sample_is_pinned_def)
  have pinned: "editable foo_pinned \<or> sample_is_pinned foo_pinned"
    by (simp add: foo_pinned_def foo_any_def sample_is_pinned_def)
  have edit: "editable bar_editable \<or> sample_is_pinned bar_editable"
    by (simp add: bar_editable_def)
  have b1: "fake_backend () foo_pinned = (Inr {six_dep}, ())"
    by (simp add: fake_backend_def foo_pinned_def foo_any_def)
  have b2: "fake_backend () bar_editable = (Inr {six_dep}, ())"
    by (simp add: fake_backend_def bar_editable_def)
  note c1 = get_dependencies_precondition [of sample_is_pinned fake_backend "()" foo_any "[]"]
  note c2 = get_dependencies_precondition [of sample_is_pinned fake_backend "()" foo_pinned "[]"]
  note c3 = get_dependencies_precondition [of sample_is_pinned fake_backend "()" bar_editable "[]"]
  from c1 unpinned have "get_dependencies sample_is_pinned (logged fake_backend) ((), []) foo_any
     = (Inl (TypeError foo_any), ((), []))"
    by blast
  moreover from c2 pinned b1 have "get_dependencies sample_is_pinned (logged fake_backend) ((), []) foo_pinned
     = (Inr {six_dep}, ((), [foo_pinned]))"
    by (metis append_Nil)
  moreover from c3 edit b2 have "get_dependencies sample_is_pinned (logged fake_backend) ((), []) bar_editable
     = (Inr {six_dep}, ((), [bar_editable]))"
    by (metis append_Nil)
  ultimately show ?thesis
    by blast
qed

section \<open>prepare_ireq bypasses the precondition\<close>

lemma prepare_ireq_logged:
  "prepare_ireq (logged backend) (self, log) ireq =
     (case backend self ireq of
        (Inl e, self') \<Rightarrow> (Inl (Raised e), (self', log @ [ireq]))
      | (Inr deps, self') \<Rightarrow> (Inr (), (self', log @ [ireq])))"
  by (simp add: prepare_ireq_def logged_def split: prod.splits sum.splits)

text \<open>
  C8.  \<^verbatim>\<open>prepare_ireq\<close> goes straight to the backend, for every requirement: with a
  logging backend the log grows by exactly the requirement it was given, and the state
  left behind is the backend's.  It succeeds exactly when the backend returns, and it never
  raises the \<^verbatim>\<open>TypeError\<close> of \<^verbatim>\<open>get_dependencies\<close>, although for a requirement that
  is neither editable nor pinned \<^verbatim>\<open>get_dependencies\<close> raises it on the same input
  without reaching the backend.
\<close>

theorem prepare_ireq_no_precondition:
  "snd (prepare_ireq (logged backend) (self, log) ireq) = (snd (backend self ireq), log @ [ireq])
   \<and> snd (prepare_ireq backend self ireq) = snd (backend self ireq)
   \<and> ((fst (prepare_ireq backend self ireq) = Inr ()) = (\<exists>deps. fst (backend self ireq) = Inr deps))
   \<and> (\<forall>r. fst (prepare_ireq backend self ireq) \<noteq> Inl (TypeError r))
   \<and> (\<not> (editable ireq \<or> P ireq) \<longrightarrow>
        get_dependencies P (logged backend) (self, log) ireq = (Inl (TypeError ireq), (self, log)))"
proof -
  obtain res self' where b: "backend self ireq = (res, self')"
    by (cases "backend self ireq")
  have "snd (prepare_ireq (logged backend) (self, log) ireq) = (snd (backend self ireq), log @ [ireq])"
    by (cases res) (simp_all add: prepare_ireq_logged b)
  moreover have "snd (prepare_ireq backend self ireq) = snd (backend self ireq)"
    by (cases res) (simp_all add: prepare_ireq_def b)
  moreover have "(fst (prepare_ireq backend self ireq) = Inr ()) = (\<exists>deps. fst (backend self ireq) = Inr deps)"
    by (cases res) (simp_all add: prepare_ireq_def b)
  moreover have "fst (prepare_ireq backend self ireq) \<noteq> Inl (TypeError r)" for r
    by (cases res) (simp_all add: prepare_ireq_def b)
  moreover have "\<not> (editable ireq \<or> P ireq) \<Longrightarrow>
      get_dependencies P (logged backend) (self, log) ireq = (Inl (TypeError ireq), (self, log))"
    by (rule get_dependencies_rejects)
  ultimately show ?thesis
    by blast
qed

theorem prepare_ireq_no_precondition_witness:
  "prepare_ireq (logged fake_backend) ((), []) foo_any = (Inr (), ((), [foo_any]))
   \<and> get_dependencies sample_is_pinned (logged fake_backend) ((), []) foo_any
       = (Inl (TypeError foo_any), ((), []))"
proof -
  have unpinned: "\<not> (editable foo_any \<or> sample_is_pinned foo_any)"
    by (simp add: foo_any_def sample_is_pinned_def)
  have b: "fake_backend () foo_any = (Inr {six_dep}, ())"
    by (simp add: fake_backend_def foo_any_def)
  note c = prepare_ireq_no_precondition [of fake_backend "()" "[]" foo_any sample_is_pinned]
  from c b have "snd (prepare_ireq (logged fake_backend) ((), []) foo_any) = ((), [foo_any])"
    by simp
  moreover from c b have "fst (prepare_ireq fake_backend () foo_any) = Inr ()"
    by simp
  then have "fst (prepare_ireq (logged fake_backend) ((), []) foo_any) = Inr ()"
    by (simp add: prepare_ireq_def logged_def b)
  moreover from c unpinned have "get_dependencies sample_is_pinned (logged fake_backend) ((), []) foo_any
       = (Inl (TypeError foo_any), ((), []))"
    by blast
  ultimately show ?thesis
    by (metis prod.collapse)
qed

section \<open>Merging is commutative and associative\<close>

lemma canonical_char_idem: "canonical_char (canonical_char c) = canonical_char c"
  by (simp add: canonical_char_def lower_def)

lemma canonical_idem: "canonical (canonical s) = canonical s"
  by (simp add: canonical_def canonical_char_idem)

lemma key_merge: "merge a b = Inr m \<Longrightarrow> key m = key a"
  by (auto simp: merge_def key_def canonical_idem split: if_splits)

lemma merge_commute: "key a = key b \<Longrightarrow> merge a b = merge b a"
  by (auto simp: merge_def has_source_def Un_commute)

lemma merge_assoc:
  assumes "key a = key b" and "key b = key c"
  shows "merge_result (merge a b) (Inr c) = merge_result (Inr a) (merge b c)"
  using assms
  by (auto simp: merge_def merge_result_def has_source_def key_def canonical_idem Un_assoc)

lemma merge_fields:
  assumes "merge a b = Inr m"
  shows "specifier m = specifier a \<union> specifier b"
    and "extras m = extras a \<union> extras b"
    and "provenance m = provenance a \<union> provenance b"
  using assms by (auto simp: merge_def split: if_splits)

lemma admits_union:
  "admits satisfies (A \<union> B) v = (admits satisfies A v \<and> admits satisfies B v)"
  by (auto simp: admits_def)

text \<open>
  C4.  For requirements \<open>a\<close>, \<open>b\<close>, \<open>c\<close> with the same canonical name, merging is
  commutative and associative: \<open>merge a b = merge b a\<close>, and merging \<open>c\<close> into the
  merge of \<open>a\<close> and \<open>b\<close> gives what merging \<open>a\<close> with the merge of \<open>b\<close> and \<open>c\<close>
  gives, a failed merge included.  Provenance is a set, so the equalities hold whatever the
  order in which it is listed.  A merge that succeeds joins the predicate sets, so that the
  versions it admits are exactly those admitted by both sides (for any meaning of the
  single predicates), and it unions the extras and the provenance sets.
\<close>

theorem merge_commutative_associative:
  assumes "key a = key b" and "key b = key c"
  shows "merge a b = merge b a
    \<and> merge_result (merge a b) (Inr c) = merge_result (Inr a) (merge b c)
    \<and> (\<forall>m. merge a b = Inr m \<longrightarrow>
          specifier m = specifier a \<union> specifier b
          \<and> (\<forall>v. admits satisfies (specifier m) v
                = (admits satisfies (specifier a) v \<and> admits satisfies (specifier b) v))
          \<and> extras m = extras a \<union> extras b
          \<and> provenance m = provenance a \<union> provenance b
          \<and> key m = key a)"
proof (intro conjI allI impI)
  show "merge a b = merge b a"
    using assms(1) by (rule merge_commute)
  show "merge_result (merge a b) (Inr c) = merge_result (Inr a) (merge b c)"
    using assms by (rule merge_assoc)
next
  fix m
  assume m: "merge a b = Inr m"
  then show "specifier m = specifier a \<union> specifier b"
    and "extras m = extras a \<union> extras b"
    and "provenance m = provenance a \<union> provenance b"
    by (rule merge_fields)+
  from m show "key m = key a"
    by (rule key_merge)
  fix v
  from m show "admits satisfies (specifier m) v
      = (admits satisfies (specifier a) v \<and> admits satisfies (specifier b) v)"
    by (simp add: merge_fields(1) admits_union)
qed

theorem merge_commutative_associative_witness:
  "key foo_bar_min = ''foo-bar'' \<and> key foo_bar_max = ''foo-bar'' \<and> key foo_bar_src = ''foo-bar''
   \<and> merge foo_bar_min foo_bar_max = merge foo_bar_max foo_bar_min
   \<and> merge foo_bar_min foo_bar_max =
       Inr \<lparr>name = ''foo-bar'', specifier = {(GreaterEqual, ''1.0''), (Less, ''2.0'')},
            extras = {''extra1'', ''extra2''}, editable = False, locator = None,
            provenance = {''root'', ''web''}\<rparr>
   \<and> merge_result (merge foo_bar_min foo_bar_max) (Inr foo_bar_src)
       = merge_result (Inr foo_bar_min) (merge foo_bar_max foo_bar_src)
   \<and> merge_result (Inr foo_bar_min) (merge foo_bar_max foo_bar_src) =
       Inr \<lparr>name = ''foo-bar'', specifier = {(GreaterEqual, ''1.0''), (Less, ''2.0'')},
            extras = {''extra1'', ''extra2''}, editable = True,
            locator = Some ''git+git://fake.org/x/foo-bar.git'',
            provenance = {''root'', ''web'', ''cli''}\<rparr>"
proof -
  have k1: "key foo_bar_min = ''foo-bar''"
    by (simp add: key_def canonical_def canonical_char_def lower_def foo_bar_min_def)
  have k2: "key foo_bar_max = ''foo-bar''"
    by (simp add: key_def canonical_def canonical_char_def lower_def foo_bar_max_def)
  have k3: "key foo_bar_src = ''foo-bar''"
    by (simp add: key_def canonical_def canonical_char_def lower_def foo_bar_src_def)
  have h1: "key foo_bar_min = key foo_bar_max"
    by (simp only: k1 k2)
  have h2: "key foo_bar_max = key foo_bar_src"
    by (simp only: k2 k3)
  note c = merge_commutative_associative [OF h1 h2]
  have m1: "merge foo_bar_min foo_bar_max =
       Inr \<lparr>name = ''foo-bar'', specifier = {(GreaterEqual, ''1.0''), (Less, ''2.0'')},
            extras = {''extra1'', ''extra2''}, editable = False, locator = None,
            provenance = {''root'', ''web''}\<rparr>"
    by (simp add: merge_def has_source_def k1) (auto simp: foo_bar_min_def foo_bar_max_def)
  have m2: "merge foo_bar_max foo_bar_src =
       Inr \<lparr>name = ''foo-bar'', specifier = {(Less, ''2.0'')},
            extras = {''extra2''}, editable = True,
            locator = Some ''git+git://fake.org/x/foo-bar.git'',
            provenance = {''web'', ''cli''}\<rparr>"
    by (simp add: merge_def has_source_def k2) (auto simp: foo_bar_max_def foo_bar_src_def)
  have m3: "merge_result (Inr foo_bar_min) (merge foo_bar_max foo_bar_src) =
       Inr \<lparr>name = ''foo-bar'', specifier = {(GreaterEqual, ''1.0''), (Less, ''2.0'')},
            extras = {''extra1'', ''extra2''}, editable = True,
            locator = Some ''git+git://fake.org/x/foo-bar.git'',
            provenance = {''root'', ''web'', ''cli''}\<rparr>"
    unfolding m2
    by (auto simp: merge_result_def merge_def has_source_def key_def canonical_def
        canonical_char_def lower_def foo_bar_min_def)
  from c have "merge foo_bar_min foo_bar_max = merge foo_bar_max foo_bar_min"
    and "merge_result (merge foo_bar_min foo_bar_max) (Inr foo_bar_src)
       = merge_result (Inr foo_bar_min) (merge foo_bar_max foo_bar_src)"
    by blast+
  with k1 k2 k3 m1 m3 show ?thesis
    by (simp only: simp_thms)
qed

section \<open>The resolution loop terminates\<close>

lemma add_requirement_error: "add_requirement ws req = Inl e \<Longrightarrow> \<exists>n. e = Conflict n"
  by (auto simp: add_requirement_def merge_def split: option.splits sum.splits if_splits)

lemma add_all_error: "add_all ws reqs = Inl e \<Longrightarrow> \<exists>n. e = Conflict n"
  by (induction reqs arbitrary: ws) (auto split: sum.splits dest: add_requirement_error)

lemma match_all_error: "match_all repo todo = Inl e \<Longrightarrow> \<exists>n. e = Conflict n"
  by (induction todo) (auto split: option.splits sum.splits)

lemma merge_dependencies_error: "merge_dependencies repo ws ps = Inl e \<Longrightarrow> \<exists>n. e = Conflict n"
  by (induction ps arbitrary: ws) (auto split: sum.splits dest: add_all_error)

lemma expand_round_error: "expand_round repo ws ex = Inl e \<Longrightarrow> \<exists>n. e = Conflict n"
  by (auto simp: expand_round_def Let_def split: sum.splits
      dest: match_all_error merge_dependencies_error)

lemma step_sound: "sound cap s \<Longrightarrow> sound cap (step repo cap s)"
  by (cases s) (auto split: sum.splits prod.splits dest: add_all_error expand_round_error)

lemma funpow_sound: "sound cap ((step repo cap ^^ k) (SEEDED roots))"
  by (induction k) (simp_all add: step_sound)

lemma run_stop: "terminal s \<Longrightarrow> run repo cap s = s"
  by (subst run.simps) simp

lemma run_unfold: "\<not> terminal s \<Longrightarrow> run repo cap s = run repo cap (step repo cap s)"
  by (subst run.simps) simp

lemma step_terminal: "terminal s \<Longrightarrow> step repo cap s = s"
  by (cases s) simp_all

lemma run_step: "run repo cap (step repo cap s) = run repo cap s"
  by (cases "terminal s") (simp_all add: step_terminal run_unfold)

lemma run_funpow: "run repo cap ((step repo cap ^^ k) s) = run repo cap s"
  by (induction k) (simp_all add: run_step)

lemma run_terminal: "terminal (run repo cap s)"
proof (induction repo cap s rule: run.induct)
  case (1 repo cap s)
  then show ?case
    by (cases "terminal s") (simp_all add: run_stop run_unfold)
qed

lemma run_sound: "sound cap s \<Longrightarrow> sound cap (run repo cap s)"
proof (induction repo cap s rule: run.induct)
  case (1 repo cap s)
  then show ?case
    by (cases "terminal s") (simp_all add: run_stop run_unfold step_sound)
qed

lemma budget_step: "\<not> terminal s \<Longrightarrow> budget cap (step repo cap s) < budget cap s"
  by (cases s) (auto split: sum.splits prod.splits)

lemma run_within_budget: "\<exists>k\<le>budget cap s. run repo cap s = (step repo cap ^^ k) s"
proof (induction repo cap s rule: run.induct)
  case (1 repo cap s)
  show ?case
  proof (cases "terminal s")
    case True
    then have "run repo cap s = (step repo cap ^^ 0) s"
      by (simp add: run_stop)
    then show ?thesis
      by blast
  next
    case False
    from 1 [OF False] obtain k where k: "k \<le> budget cap (step repo cap s)"
      and r: "run repo cap (step repo cap s) = (step repo cap ^^ k) (step repo cap s)"
      by blast
    from r have "run repo cap s = (step repo cap ^^ Suc k) s"
      by (simp add: run_step funpow_swap1)
    moreover from k budget_step [OF False, of cap repo] have "Suc k \<le> budget cap s"
      by simp
    ultimately show ?thesis
      by blast
  qed
qed

lemma step_not_seeded: "step repo cap s \<noteq> SEEDED rs"
  by (cases s) (auto split: sum.splits prod.splits)

text \<open>After \<open>k + 1\<close> transitions from SEEDED, a loop that is still expanding has completed \<open>k\<close> rounds.\<close>

lemma counter_after:
  "(step repo cap ^^ Suc k) (SEEDED roots) = EXPANDING n ws ex \<Longrightarrow> n = k"
proof (induction k arbitrary: n ws ex)
  case 0
  then show ?case
    by (auto split: sum.splits)
next
  case (Suc k)
  let ?s = "(step repo cap ^^ Suc k) (SEEDED roots)"
  from Suc.prems have st: "step repo cap ?s = EXPANDING n ws ex"
    by simp
  show ?case
  proof (cases ?s)
    case (SEEDED rs)
    then have "step repo cap ((step repo cap ^^ k) (SEEDED roots)) = SEEDED rs"
      by simp
    then show ?thesis
      by (simp add: step_not_seeded)
  next
    case (EXPANDING m ws' ex')
    with Suc.IH have "m = k"
      by blast
    with st EXPANDING show ?thesis
      by (auto split: if_splits sum.splits prod.splits)
  next
    case (STABLE x)
    with st show ?thesis
      by simp
  next
    case (FAILED x)
    with st show ?thesis
      by simp
  qed
qed

text \<open>The round limit is only ever reported from an expanding state that has used up the cap.\<close>

lemma limit_source:
  "run repo cap s = FAILED RoundLimitExceeded \<Longrightarrow> s \<noteq> FAILED RoundLimitExceeded \<Longrightarrow>
   \<exists>k n ws ex. (step repo cap ^^ k) s = EXPANDING n ws ex \<and> cap \<le> n"
proof (induction repo cap s rule: run.induct)
  case (1 repo cap s)
  show ?case
  proof (cases "terminal s")
    case True
    with 1 show ?thesis
      by (simp add: run_stop)
  next
    case False
    show ?thesis
    proof (cases "step repo cap s = FAILED RoundLimitExceeded")
      case True
      with False obtain n ws ex where "s = EXPANDING n ws ex" "cap \<le> n"
        by (cases s)
          (auto split: sum.splits prod.splits if_splits dest: add_all_error expand_round_error)
      then have "(step repo cap ^^ 0) s = EXPANDING n ws ex \<and> cap \<le> n"
        by simp
      then show ?thesis
        by blast
    next
      case no: False
      from 1(2) False have "run repo cap (step repo cap s) = FAILED RoundLimitExceeded"
        by (simp add: run_unfold)
      from 1(1) [OF False this no] obtain k n ws ex
        where "(step repo cap ^^ k) (step repo cap s) = EXPANDING n ws ex" "cap \<le> n"
        by blast
      then have "(step repo cap ^^ Suc k) s = EXPANDING n ws ex \<and> cap \<le> n"
        by (simp add: funpow_swap1)
      then show ?thesis
        by blast
    qed
  qed
qed

lemma limit_iff:
  "resolve repo cap roots = FAILED RoundLimitExceeded \<longleftrightarrow>
   (\<exists>ws ex. (step repo cap ^^ Suc cap) (SEEDED roots) = EXPANDING cap ws ex)"
proof
  assume "resolve repo cap roots = FAILED RoundLimitExceeded"
  then have "run repo cap (SEEDED roots) = FAILED RoundLimitExceeded"
    by (simp add: resolve_def)
  from limit_source [OF this] obtain k n ws ex
    where k: "(step repo cap ^^ k) (SEEDED roots) = EXPANDING n ws ex" and n: "cap \<le> n"
    by auto
  from k obtain j where j: "k = Suc j"
    by (cases k) auto
  with k counter_after have "n = j"
    by blast
  from k funpow_sound [where cap = cap and repo = repo and k = k and roots = roots] have "n \<le> cap"
    by simp
  with n \<open>n = j\<close> j k show "\<exists>ws ex. (step repo cap ^^ Suc cap) (SEEDED roots) = EXPANDING cap ws ex"
    by auto
next
  assume "\<exists>ws ex. (step repo cap ^^ Suc cap) (SEEDED roots) = EXPANDING cap ws ex"
  then obtain ws ex where e: "(step repo cap ^^ Suc cap) (SEEDED roots) = EXPANDING cap ws ex"
    by blast
  have "run repo cap (SEEDED roots) = run repo cap ((step repo cap ^^ Suc cap) (SEEDED roots))"
    by (simp only: run_funpow)
  also have "\<dots> = run repo cap (EXPANDING cap ws ex)"
    by (simp only: e)
  also have "\<dots> = run repo cap (step repo cap (EXPANDING cap ws ex))"
    by (simp add: run_unfold)
  also have "\<dots> = FAILED RoundLimitExceeded"
    by (simp add: run_stop)
  finally show "resolve repo cap roots = FAILED RoundLimitExceeded"
    by (simp add: resolve_def)
qed

text \<open>
  C7.  The resolution loop always terminates.  For every repository, round cap and list of
  roots, \<open>resolve\<close> ends in a terminal state, reached after at most \<open>cap + 2\<close>
  transitions from SEEDED (the seeding, at most \<open>cap\<close> rounds, and the transition that
  reports the limit).  The terminal state is STABLE, a CONFLICT, or the round limit, and
  never another failure.  The round limit is the outcome exactly when \<open>cap\<close> rounds have
  been completed and the loop is still expanding, that is, when one more round would
  exceed the cap; and it is an outcome different from every CONFLICT.
\<close>

theorem resolution_terminates:
  "terminal (resolve repo cap roots)
   \<and> (\<exists>k\<le>cap + 2. resolve repo cap roots = (step repo cap ^^ k) (SEEDED roots))
   \<and> ((\<exists>ws. resolve repo cap roots = STABLE ws)
        \<or> (\<exists>n. resolve repo cap roots = FAILED (Conflict n))
        \<or> resolve repo cap roots = FAILED RoundLimitExceeded)
   \<and> ((resolve repo cap roots = FAILED RoundLimitExceeded)
        = (\<exists>ws ex. (step repo cap ^^ Suc cap) (SEEDED roots) = EXPANDING cap ws ex))
   \<and> (\<forall>n. FAILED (Conflict n) \<noteq> FAILED RoundLimitExceeded)"
proof -
  have t: "terminal (resolve repo cap roots)"
    by (simp add: resolve_def run_terminal)
  have "sound cap (resolve repo cap roots)"
    by (simp add: resolve_def run_sound)
  with t have three: "(\<exists>ws. resolve repo cap roots = STABLE ws)
        \<or> (\<exists>n. resolve repo cap roots = FAILED (Conflict n))
        \<or> resolve repo cap roots = FAILED RoundLimitExceeded"
    by (cases "resolve repo cap roots") auto
  from run_within_budget [of cap "SEEDED roots" repo]
  have "\<exists>k\<le>cap + 2. resolve repo cap roots = (step repo cap ^^ k) (SEEDED roots)"
    by (simp add: resolve_def)
  with t three limit_iff [of repo cap roots] show ?thesis
    by simp
qed

theorem resolution_terminates_witness:
  "resolve mutual_repo 5 [plain ''a''] =
     STABLE [(''a'', exactly ''a'' ''0.1''), (''b'', exactly ''b'' ''0.1'')]
   \<and> resolve index_repo 5 [exactly ''foo'' ''1.0'', exactly ''Foo'' ''2.0''] = FAILED (Conflict ''foo'')
   \<and> resolve chain_repo 3 [plain ''a''] = FAILED RoundLimitExceeded
   \<and> (\<exists>ws ex. (step chain_repo 3 ^^ 4) (SEEDED [plain ''a'']) = EXPANDING 3 ws ex)
   \<and> terminal (resolve chain_repo 3 [plain ''a''])"
proof -
  note defs = resolve_def run.simps expand_round_def pending_def store_all_def unchanged_def
    add_requirement_def merge_def pin_def has_source_def key_def canonical_def
    canonical_char_def lower_def plain_def exactly_def
  have r1: "resolve mutual_repo 5 [plain ''a''] =
     STABLE [(''a'', exactly ''a'' ''0.1''), (''b'', exactly ''b'' ''0.1'')]"
    by (simp add: defs mutual_repo_def)
  have r2: "resolve index_repo 5 [exactly ''foo'' ''1.0'', exactly ''Foo'' ''2.0'']
     = FAILED (Conflict ''foo'')"
    by (simp add: defs index_repo_def names_version_def)
  have r3: "resolve chain_repo 3 [plain ''a''] = FAILED RoundLimitExceeded"
    by (simp add: defs chain_repo_def)
  note c = resolution_terminates [of chain_repo 3 "[plain ''a'']"]
  from c r3 have "\<exists>ws ex. (step chain_repo 3 ^^ Suc 3) (SEEDED [plain ''a'']) = EXPANDING 3 ws ex"
    by blast
  then have r4: "\<exists>ws ex. (step chain_repo 3 ^^ 4) (SEEDED [plain ''a'']) = EXPANDING 3 ws ex"
    by (simp add: eval_nat_numeral)
  from c have r5: "terminal (resolve chain_repo 3 [plain ''a''])"
    by blast
  from r1 r2 r3 r4 r5 show ?thesis
    by blast
qed

end
